theory Spec2Isabelle
  imports Complex_Main
begin

section \<open>Numbers\<close>

text \<open>
  Python floats and numpy float64 values are modelled as exact reals: the formulas of the
  source are kept, rounding error is not. Python integers are \<open>int\<close>. Every raise of the
  source is a value \<open>Inl e\<close> of the result type.
\<close>

datatype error = ValueError | TypeError | UnboundLocalError | ZeroDivisionError | OverflowError

text \<open>\<^verbatim>\<open>np.degrees\<close>.\<close>

definition degrees :: "real \<Rightarrow> real" where
  "degrees x = x * 180 / pi"

text \<open>\<^verbatim>\<open>np.mod\<close> on floats: the result has the sign of the divisor.\<close>

definition np_mod :: "real \<Rightarrow> real \<Rightarrow> real" where
  "np_mod x m = x - m * of_int \<lfloor>x / m\<rfloor>"

text \<open>
  \<^verbatim>\<open>np.mod\<close> on integers (the numpy ufunc, as compiled by numba): floored remainder, and
  0 for a zero divisor.
\<close>

definition np_mod_int :: "int \<Rightarrow> int \<Rightarrow> int" where
  "np_mod_int i n = (if n = 0 then 0 else i mod n)"

text \<open>Python's \<^verbatim>\<open>int(x)\<close> on a float: truncation toward zero.\<close>

definition py_int :: "real \<Rightarrow> int" where
  "py_int x = (if 0 \<le> x then \<lfloor>x\<rfloor> else \<lceil>x\<rceil>)"

text \<open>\<^verbatim>\<open>np.round\<close> / \<^verbatim>\<open>np.around\<close>: round half to even.\<close>

definition np_round :: "real \<Rightarrow> int" where
  "np_round x =
     (let f = \<lfloor>x\<rfloor>; r = x - of_int f
      in if r < 1 / 2 then f
         else if 1 / 2 < r then f + 1
         else if even f then f else f + 1)"

text \<open>Python's \<^verbatim>\<open>range(a, b)\<close>.\<close>

definition py_range :: "int \<Rightarrow> int \<Rightarrow> int list" where
  "py_range a b = [a..b - 1]"

section \<open>Constants and geometries\<close>

text \<open>
  The module \<^verbatim>\<open>tatc.constants\<close> is not part of the sources at hand; the constants the
  code reads from it are parameters of the model. \<^verbatim>\<open>points.py\<close> imports
  \<^verbatim>\<open>earth_mean_radius\<close>, \<^verbatim>\<open>utils.py\<close> reads \<^verbatim>\<open>EARTH_MEAN_RADIUS\<close> and
  \<^verbatim>\<open>EARTH_SURFACE_AREA\<close>.
\<close>

record constants =
  earth_mean_radius :: real
  EARTH_MEAN_RADIUS :: real
  EARTH_SURFACE_AREA :: real

type_synonym coord = "real \<times> real"

text \<open>
  A shapely Polygon, read through \<^verbatim>\<open>polygon.exterior.coords\<close> and
  \<^verbatim>\<open>polygon.interiors\<close>: coordinates are (longitude, latitude).
\<close>

record polygon =
  exterior :: "coord list"
  interiors :: "coord list list"

text \<open>
  The geometries the code distinguishes with \<^verbatim>\<open>isinstance\<close>. Points, lines and every
  other shapely type are \<open>OtherGeometry\<close>, kept apart by their coordinates.
\<close>

datatype geometry =
  Polygon polygon
  | MultiPolygon "polygon list"
  | OtherGeometry "coord list"

type_synonym linestring = "coord list"

text \<open>
  The computational-geometry engine (shapely, geopandas, and numpy's interpolation) is a
  capability the code consumes; it is a parameter of the model:
  \<^item> \<open>is_valid\<close>: \<^verbatim>\<open>geometry.is_valid\<close>;
  \<^item> \<open>bounds\<close>: \<^verbatim>\<open>geometry.bounds\<close>, as (minx, miny, maxx, maxy);
  \<^item> \<open>clip_keeps\<close>: whether \<^verbatim>\<open>gpd.clip(gdf, mask)\<close> keeps the point at the given
    coordinates;
  \<^item> \<open>split\<close>: the members of the collection \<^verbatim>\<open>shapely.ops.split(geometry, line)\<close>;
  \<^item> \<open>crosses\<close>: \<^verbatim>\<open>geometry.crosses(line)\<close>;
  \<^item> \<open>interp_sorted x lon shift\<close>:
    \<^verbatim>\<open>np.interp(x, np.sort(lon), shift[np.argsort(lon)])\<close>, whose treatment of equal
    longitudes numpy leaves to the sorting algorithm.
\<close>

record engine =
  is_valid :: "geometry \<Rightarrow> bool"
  bounds :: "geometry \<Rightarrow> real \<times> real \<times> real \<times> real"
  clip_keeps :: "geometry \<Rightarrow> coord \<Rightarrow> bool"
  split :: "geometry \<Rightarrow> linestring \<Rightarrow> geometry list"
  crosses :: "geometry \<Rightarrow> linestring \<Rightarrow> bool"
  interp_sorted :: "real \<Rightarrow> real list \<Rightarrow> int list \<Rightarrow> real"

text \<open>A row of the returned data frame: \<^verbatim>\<open>point_id\<close> and the Point geometry.\<close>

record point =
  point_id :: int
  longitude :: real
  latitude :: real

section \<open>Fibonacci lattice (points.py, utils.py)\<close>

text \<open>
  \<^verbatim>\<open>compute_number_samples\<close> (utils.py). The function is compiled by numba, where a
  float division by zero raises \<^verbatim>\<open>ZeroDivisionError\<close>. A zero radius makes
  \<open>sample_area\<close> zero as well, so the one test covers both divisions.
\<close>

definition compute_number_samples :: "constants \<Rightarrow> real \<Rightarrow> error + int" where
  "compute_number_samples K distance =
     (let theta = distance / EARTH_MEAN_RADIUS K;
          radius = EARTH_MEAN_RADIUS K * cos (theta / 2);
          height = EARTH_MEAN_RADIUS K - radius;
          sample_area = 2 * pi * EARTH_MEAN_RADIUS K * height
      in if sample_area = 0 then Inl ZeroDivisionError
         else Inr (py_int (EARTH_SURFACE_AREA K / sample_area)))"

definition compute_latitude :: "int \<Rightarrow> int \<Rightarrow> real" where
  "compute_latitude i n = degrees (arcsin (2 * (of_int i + 1) / (of_int n + 2) - 1))"

definition compute_longitude :: "int \<Rightarrow> int \<Rightarrow> real" where
  "compute_longitude i n =
     (let phi = (1 + sqrt 5) / 2;
          longitude = np_mod (360 * of_int i / phi) 360
      in if 180 < longitude then longitude - 360 else longitude)"

text \<open>
  The bounding box both samplers filter with: the mask's bounds when the mask is a Polygon
  or MultiPolygon (which must be valid), the whole globe otherwise.
\<close>

definition is_polygonal :: "geometry \<Rightarrow> bool" where
  "is_polygonal g = (case g of Polygon _ \<Rightarrow> True | MultiPolygon _ \<Rightarrow> True | OtherGeometry _ \<Rightarrow> False)"

definition total_bounds :: "engine \<Rightarrow> geometry option \<Rightarrow> error + real \<times> real \<times> real \<times> real" where
  "total_bounds E msk =
     (case msk of
        None \<Rightarrow> Inr (-180, -90, 180, 90)
      | Some m \<Rightarrow>
          if is_polygonal m
          then (if \<not> is_valid E m then Inl ValueError else Inr (bounds E m))
          else Inr (-180, -90, 180, 90))"

text \<open>The longitude a lattice point is placed at and filtered by.\<close>

definition lattice_longitude :: "bool \<Rightarrow> real \<Rightarrow> int \<Rightarrow> int \<Rightarrow> real" where
  "lattice_longitude masked max_longitude i samples =
     (if masked \<and> 180 < max_longitude \<and> compute_longitude i samples < 0
      then compute_longitude i samples + 360
      else compute_longitude i samples)"

definition clip :: "engine \<Rightarrow> geometry \<Rightarrow> point list \<Rightarrow> point list" where
  "clip E m ps = filter (\<lambda>p. clip_keeps E m (longitude p, latitude p)) ps"

definition generate_fibonacci_lattice_points ::
    "constants \<Rightarrow> engine \<Rightarrow> real \<Rightarrow> geometry option \<Rightarrow> error + point list" where
  "generate_fibonacci_lattice_points K E distance msk =
     (case compute_number_samples K distance of
        Inl e \<Rightarrow> Inl e
      | Inr samples \<Rightarrow>
          (case total_bounds E msk of
             Inl e \<Rightarrow> Inl e
           | Inr (min_longitude, min_latitude, bound2, max_latitude) \<Rightarrow>
               (let max_longitude = (if bound2 = -180 then 180 else bound2);
                    indices =
                      (if msk = None then py_range 0 samples
                       else filter
                         (\<lambda>i. (min_latitude \<le> compute_latitude i samples
                                 \<and> compute_latitude i samples \<le> max_latitude)
                               \<and> (min_longitude \<le> lattice_longitude True max_longitude i samples
                                 \<and> lattice_longitude True max_longitude i samples \<le> max_longitude))
                         (py_range 0 samples));
                    gdf = map (\<lambda>i. \<lparr>point_id = i,
                                      longitude = lattice_longitude (msk \<noteq> None) max_longitude i samples,
                                      latitude = compute_latitude i samples\<rparr>) indices
                in case msk of
                     None \<Rightarrow> Inr gdf
                   | Some m \<Rightarrow> Inr (clip E m gdf))))"

section \<open>Fixed-step grid (points.py)\<close>

text \<open>
  \<^verbatim>\<open>int(np.round(a / theta))\<close>, with \<open>theta\<close> a numpy float64 as
  \<^verbatim>\<open>generate_cubed_sphere_points\<close> passes it: a zero step gives nan or an infinity, which
  \<^verbatim>\<open>int\<close> refuses with ValueError and OverflowError.
\<close>

definition int_round_div :: "real \<Rightarrow> real \<Rightarrow> error + int" where
  "int_round_div a theta =
     (if theta = 0 then (if a = 0 then Inl ValueError else Inl OverflowError)
      else Inr (np_round (a / theta)))"

text \<open>
  \<^verbatim>\<open>_compute_id\<close>. It is called only for generated indices, when both steps have been
  divided by already and are not zero.
\<close>

definition compute_id :: "int \<Rightarrow> int \<Rightarrow> real \<Rightarrow> real \<Rightarrow> int" where
  "compute_id i j theta_i theta_j =
     j * py_int (360 / theta_j) + np_mod_int i (py_int (360 / theta_i))"

text \<open>
  The index pairs of the nested comprehension: the outer range runs over \<open>j\<close>, and the
  bounds of the inner range are computed only when the outer range is not empty.
\<close>

definition grid_indices ::
    "real \<Rightarrow> real \<Rightarrow> real \<times> real \<times> real \<times> real \<Rightarrow> error + (int \<times> int) list" where
  "grid_indices theta_longitude theta_latitude b =
     (case b of (min_longitude, min_latitude, bound2, max_latitude) \<Rightarrow>
        (let max_longitude = (if bound2 = -180 then 180 else bound2)
         in case int_round_div (min_latitude + 90) theta_latitude of
              Inl e \<Rightarrow> Inl e
            | Inr j0 \<Rightarrow>
               (case int_round_div (max_latitude + 90) theta_latitude of
                  Inl e \<Rightarrow> Inl e
                | Inr j1 \<Rightarrow>
                   if py_range j0 j1 = [] then Inr []
                   else
                    (case int_round_div (min_longitude + 180) theta_longitude of
                       Inl e \<Rightarrow> Inl e
                     | Inr i0 \<Rightarrow>
                        (case int_round_div (max_longitude + 180) theta_longitude of
                           Inl e \<Rightarrow> Inl e
                         | Inr i1 \<Rightarrow>
                            Inr (concat (map (\<lambda>j. map (\<lambda>i. (i, j)) (py_range i0 i1))
                                             (py_range j0 j1))))))))"

definition generate_cubed_sphere_points_steps ::
    "engine \<Rightarrow> real \<Rightarrow> real \<Rightarrow> geometry option \<Rightarrow> error + point list" where
  "generate_cubed_sphere_points_steps E theta_longitude theta_latitude msk =
     (case total_bounds E msk of
        Inl e \<Rightarrow> Inl e
      | Inr b \<Rightarrow>
         (case grid_indices theta_longitude theta_latitude b of
            Inl e \<Rightarrow> Inl e
          | Inr indices \<Rightarrow>
             (let gdf = map (\<lambda>(i, j).
                           \<lparr>point_id = compute_id i j theta_longitude theta_latitude,
                            longitude = -180 + (of_int i + 1 / 2) * theta_longitude,
                            latitude = -90 + (of_int j + 1 / 2) * theta_latitude\<rparr>) indices
              in case msk of
                   None \<Rightarrow> Inr gdf
                 | Some m \<Rightarrow> Inr (clip E m gdf))))"

text \<open>
  \<^verbatim>\<open>generate_cubed_sphere_points\<close>; the function above is
  \<^verbatim>\<open>_generate_cubed_sphere_points\<close>. A zero radius raises at the division.
\<close>

definition generate_cubed_sphere_points ::
    "constants \<Rightarrow> engine \<Rightarrow> real \<Rightarrow> geometry option \<Rightarrow> error + point list" where
  "generate_cubed_sphere_points K E distance msk =
     (if earth_mean_radius K = 0 then Inl ZeroDivisionError
      else
        (let theta_longitude = degrees (distance / earth_mean_radius K);
             theta_latitude = degrees (distance / earth_mean_radius K)
         in generate_cubed_sphere_points_steps E theta_longitude theta_latitude msk))"

section \<open>Splitting and wrapping polygons (utils.py)\<close>

text \<open>
  What the code hands to shapely's \<^verbatim>\<open>Polygon(shell, holes)\<close> as one coordinate: a pair
  \<^verbatim>\<open>[x, y]\<close>, or the malformed \<^verbatim>\<open>[(x,), y]\<close> whose first component is a 1-tuple.
\<close>

datatype py_coord = Coord real real | NestedCoord real real

definition well_formed :: "py_coord \<Rightarrow> bool" where
  "well_formed c = (case c of Coord _ _ \<Rightarrow> True | NestedCoord _ _ \<Rightarrow> False)"

definition to_coord :: "py_coord \<Rightarrow> coord" where
  "to_coord c = (case c of Coord x y \<Rightarrow> (x, y) | NestedCoord x y \<Rightarrow> (x, y))"

text \<open>shapely closes a ring whose last coordinate is not its first.\<close>

definition close_ring :: "coord list \<Rightarrow> coord list" where
  "close_ring cs = (if cs = [] \<or> hd cs = last cs then cs else cs @ [hd cs])"

text \<open>
  The constructor \<^verbatim>\<open>Polygon(shell, holes)\<close>: it raises on a coordinate that is not a
  sequence of numbers. The rings the code passes have the length of the rings of a
  polygon that exists, so shapely's minimum ring length is met.
\<close>

definition py_Polygon :: "py_coord list \<Rightarrow> py_coord list list \<Rightarrow> error + polygon" where
  "py_Polygon shell holes =
     (if list_all well_formed shell \<and> list_all (list_all well_formed) holes
      then Inr \<lparr>exterior = close_ring (map to_coord shell),
                interiors = map (\<lambda>h. close_ring (map to_coord h)) holes\<rparr>
      else Inl TypeError)"

text \<open>A list comprehension over calls that may raise: the first raise ends it.\<close>

fun mapM_sum :: "('a \<Rightarrow> 'e + 'b) \<Rightarrow> 'a list \<Rightarrow> 'e + 'b list" where
  "mapM_sum f [] = Inr []"
| "mapM_sum f (x # xs) =
     (case f x of
        Inl e \<Rightarrow> Inl e
      | Inr y \<Rightarrow> (case mapM_sum f xs of Inl e \<Rightarrow> Inl e | Inr ys \<Rightarrow> Inr (y # ys)))"

text \<open>\<^verbatim>\<open>p.geoms if isinstance(p, MultiPolygon) else [p]\<close>, for a polygonal \<open>p\<close>.\<close>

definition geoms_or_self :: "geometry \<Rightarrow> polygon list" where
  "geoms_or_self g = (case g of Polygon p \<Rightarrow> [p] | MultiPolygon ps \<Rightarrow> ps | OtherGeometry _ \<Rightarrow> [])"

text \<open>
  The shape all six functions share: the Polygon branch \<open>f\<close>, the MultiPolygon branch that
  calls the function on each part (a Polygon, so \<open>f\<close> again) and flattens, and the raise
  for any other geometry.
\<close>

definition per_polygon :: "(polygon \<Rightarrow> error + geometry) \<Rightarrow> geometry \<Rightarrow> error + geometry" where
  "per_polygon f g =
     (case g of
        Polygon p \<Rightarrow> f p
      | MultiPolygon ps \<Rightarrow>
          (case mapM_sum f ps of
             Inl e \<Rightarrow> Inl e
           | Inr gs \<Rightarrow> Inr (MultiPolygon (concat (map geoms_or_self gs))))
      | OtherGeometry _ \<Rightarrow> Inl ValueError)"

text \<open>
  The end of the three wrap functions: \<^verbatim>\<open>if not pgon.is_valid: return polygon\<close>, then
  \<^verbatim>\<open>return pgon\<close>.
\<close>

definition valid_or_original :: "engine \<Rightarrow> polygon \<Rightarrow> polygon \<Rightarrow> geometry" where
  "valid_or_original E original pgon =
     (if \<not> is_valid E (Polygon pgon) then Polygon original else Polygon pgon)"

definition wrap_north_coord :: "real \<Rightarrow> coord \<Rightarrow> py_coord" where
  "wrap_north_coord lat_shift c =
     Coord (if 90 \<le> snd c then fst c + lat_shift else fst c)
           (if 90 \<le> snd c then 180 - snd c else snd c)"

definition wrap_polygon_over_north_pole_Polygon :: "engine \<Rightarrow> polygon \<Rightarrow> error + geometry" where
  "wrap_polygon_over_north_pole_Polygon E polygon =
     (if list_all (\<lambda>c. snd c \<le> 90) (exterior polygon) then Inr (Polygon polygon)
      else
        (let lat_shift = (if list_all (\<lambda>c. fst c \<le> 0) (exterior polygon) then 180 else -180)
         in case py_Polygon (map (wrap_north_coord lat_shift) (exterior polygon))
                            (map (map (wrap_north_coord lat_shift)) (interiors polygon)) of
              Inl e \<Rightarrow> Inl e
            | Inr pgon \<Rightarrow> Inr (valid_or_original E polygon pgon)))"

definition wrap_polygon_over_north_pole :: "engine \<Rightarrow> geometry \<Rightarrow> error + geometry" where
  "wrap_polygon_over_north_pole E = per_polygon (wrap_polygon_over_north_pole_Polygon E)"

text \<open>
  In the south-pole wrap the first component of every interior coordinate is written
  \<^verbatim>\<open>(c[0] + lat_shift if c[1] <= -90 else c[0],)\<close>: a 1-tuple.
\<close>

definition wrap_south_coord :: "real \<Rightarrow> coord \<Rightarrow> py_coord" where
  "wrap_south_coord lat_shift c =
     Coord (if snd c \<le> -90 then fst c + lat_shift else fst c)
           (if snd c \<le> -90 then -180 - snd c else snd c)"

definition wrap_south_interior_coord :: "real \<Rightarrow> coord \<Rightarrow> py_coord" where
  "wrap_south_interior_coord lat_shift c =
     NestedCoord (if snd c \<le> -90 then fst c + lat_shift else fst c)
                 (if snd c \<le> -90 then -180 - snd c else snd c)"

definition wrap_polygon_over_south_pole_Polygon :: "engine \<Rightarrow> polygon \<Rightarrow> error + geometry" where
  "wrap_polygon_over_south_pole_Polygon E polygon =
     (if list_all (\<lambda>c. -90 \<le> snd c) (exterior polygon) then Inr (Polygon polygon)
      else
        (let lat_shift = (if list_all (\<lambda>c. fst c \<le> 0) (exterior polygon) then 180 else -180)
         in case py_Polygon (map (wrap_south_coord lat_shift) (exterior polygon))
                            (map (map (wrap_south_interior_coord lat_shift)) (interiors polygon)) of
              Inl e \<Rightarrow> Inl e
            | Inr pgon \<Rightarrow> Inr (valid_or_original E polygon pgon)))"

definition wrap_polygon_over_south_pole :: "engine \<Rightarrow> geometry \<Rightarrow> error + geometry" where
  "wrap_polygon_over_south_pole E = per_polygon (wrap_polygon_over_south_pole_Polygon E)"

text \<open>
  In the antimeridian wrap \<open>pgon\<close> is assigned in two \<^verbatim>\<open>if\<close> statements and read after
  them; when neither has run, the read raises UnboundLocalError.
\<close>

definition shift_polygon :: "real \<Rightarrow> polygon \<Rightarrow> error + polygon" where
  "shift_polygon dx polygon =
     py_Polygon (map (\<lambda>c. Coord (fst c + dx) (snd c)) (exterior polygon))
                (map (map (\<lambda>c. Coord (fst c + dx) (snd c))) (interiors polygon))"

definition wrap_polygon_over_antimeridian_Polygon :: "engine \<Rightarrow> polygon \<Rightarrow> error + geometry" where
  "wrap_polygon_over_antimeridian_Polygon E polygon =
     (if list_all (\<lambda>c. -180 \<le> fst c \<and> fst c \<le> 180) (exterior polygon)
      then Inr (Polygon polygon)
      else
        (let pgon0 = None;
             pgon1 = (if list_all (\<lambda>c. fst c \<le> -180) (exterior polygon)
                      then Some (shift_polygon 360 polygon) else pgon0);
             pgon2 = (if list_all (\<lambda>c. 180 \<le> fst c) (exterior polygon)
                      then Some (shift_polygon (-360) polygon) else pgon1)
         in case pgon1 of
              Some (Inl e) \<Rightarrow> Inl e
            | _ \<Rightarrow>
              (case pgon2 of
                 None \<Rightarrow> Inl UnboundLocalError
               | Some (Inl e) \<Rightarrow> Inl e
               | Some (Inr pgon) \<Rightarrow> Inr (valid_or_original E polygon pgon))))"

definition wrap_polygon_over_antimeridian :: "engine \<Rightarrow> geometry \<Rightarrow> error + geometry" where
  "wrap_polygon_over_antimeridian E = per_polygon (wrap_polygon_over_antimeridian_Polygon E)"

definition convert_collection_to_polygon :: "geometry list \<Rightarrow> geometry" where
  "convert_collection_to_polygon collection =
     (let pgons = concat (map (\<lambda>g. case g of Polygon p \<Rightarrow> [p] | _ \<Rightarrow> []) collection)
                  @ concat (map (\<lambda>g. case g of MultiPolygon ps \<Rightarrow> ps | _ \<Rightarrow> []) collection)
      in if length pgons = 1 then Polygon (hd pgons) else MultiPolygon pgons)"

text \<open>
  The loop of both pole splits: it runs over the parts of the first cut, and replaces a
  part that crosses the meridian line by its pieces in the collection built so far.
\<close>

definition split_crossing_parts :: "engine \<Rightarrow> linestring \<Rightarrow> geometry list \<Rightarrow> geometry list" where
  "split_crossing_parts E line parts0 =
     foldl (\<lambda>parts part.
              if crosses E part line
              then filter (\<lambda>g. g \<noteq> part) parts @ split E part line
              else parts)
           parts0 parts0"

definition split_polygon_north_pole_Polygon :: "engine \<Rightarrow> polygon \<Rightarrow> error + geometry" where
  "split_polygon_north_pole_Polygon E polygon =
     (if list_all (\<lambda>c. snd c \<le> 90) (exterior polygon) then Inr (Polygon polygon)
      else
        (let parts = split E (Polygon polygon) [(-360, 90), (360, 90)];
             parts = split_crossing_parts E [(0, 90), (0, 180)] parts
         in wrap_polygon_over_north_pole E (convert_collection_to_polygon parts)))"

definition split_polygon_north_pole :: "engine \<Rightarrow> geometry \<Rightarrow> error + geometry" where
  "split_polygon_north_pole E = per_polygon (split_polygon_north_pole_Polygon E)"

definition split_polygon_south_pole_Polygon :: "engine \<Rightarrow> polygon \<Rightarrow> error + geometry" where
  "split_polygon_south_pole_Polygon E polygon =
     (if list_all (\<lambda>lat. -90 \<le> lat) (map snd (exterior polygon)) then Inr (Polygon polygon)
      else
        (let parts = split E (Polygon polygon) [(-360, -90), (360, -90)];
             parts = split_crossing_parts E [(0, -90), (0, -180)] parts
         in wrap_polygon_over_south_pole E (convert_collection_to_polygon parts)))"

definition split_polygon_south_pole :: "engine \<Rightarrow> geometry \<Rightarrow> error + geometry" where
  "split_polygon_south_pole E = per_polygon (split_polygon_south_pole_Polygon E)"

text \<open>\<^verbatim>\<open>np.diff\<close> and \<^verbatim>\<open>np.cumsum\<close>.\<close>

fun np_diff :: "real list \<Rightarrow> real list" where
  "np_diff (a # b # xs) = (b - a) # np_diff (b # xs)"
| "np_diff _ = []"

fun np_cumsum :: "int \<Rightarrow> int list \<Rightarrow> int list" where
  "np_cumsum acc [] = []"
| "np_cumsum acc (x # xs) = (acc + x) # np_cumsum (acc + x) xs"

text \<open>\<^verbatim>\<open>np.insert(np.cumsum(np.around(np.diff(lon) / 360)), 0, 0)\<close>.\<close>

definition antimeridian_shift :: "real list \<Rightarrow> int list" where
  "antimeridian_shift lon = 0 # np_cumsum 0 (map (\<lambda>d. np_round (d / 360)) (np_diff lon))"

definition split_polygon_antimeridian_Polygon :: "engine \<Rightarrow> polygon \<Rightarrow> error + geometry" where
  "split_polygon_antimeridian_Polygon E polygon =
     (let lon = map fst (exterior polygon)
      in if list_all (\<lambda>d. \<bar>d\<bar> < 180) (np_diff lon) then Inr (Polygon polygon)
         else
           (let shift = antimeridian_shift lon
            in case py_Polygon
                      (map (\<lambda>(c, s). Coord (fst c - 360 * of_int s) (snd c))
                           (zip (exterior polygon) shift))
                      (map (map (\<lambda>ic. Coord (fst ic - 360 * interp_sorted E (fst ic) lon shift)
                                              (snd ic)))
                           (interiors polygon)) of
                 Inl e \<Rightarrow> Inl e
               | Inr pgon \<Rightarrow>
                  (let shift_dir = (if 1 \<le> Max (set shift) then -180 else 180);
                       parts = split E (Polygon pgon) [(shift_dir, -180), (shift_dir, 180)]
                   in wrap_polygon_over_antimeridian E (convert_collection_to_polygon parts))))"

definition split_polygon_antimeridian :: "engine \<Rightarrow> geometry \<Rightarrow> error + geometry" where
  "split_polygon_antimeridian E = per_polygon (split_polygon_antimeridian_Polygon E)"

definition split_polygon :: "engine \<Rightarrow> geometry \<Rightarrow> error + geometry" where
  "split_polygon E polygon =
     (case split_polygon_antimeridian E polygon of
        Inl e \<Rightarrow> Inl e
      | Inr a \<Rightarrow>
         (case split_polygon_south_pole E a of
            Inl e \<Rightarrow> Inl e
          | Inr s \<Rightarrow> split_polygon_north_pole E s))"




section \<open>Instances of the parameters\<close>

text \<open>
  Modelled from the spec: the module \<^verbatim>\<open>tatc.constants\<close> is missing from the sources. The
  spec speaks of a mean-radius sphere and of its total surface area; the radius is the
  WGS 84 mean radius in meters. The theorems below hold for every value of the constants;
  this instance is used where a theorem is applied to concrete input.
\<close>

definition reference_constants :: constants where
  "reference_constants =
     \<lparr>earth_mean_radius = 63710087714 / 10000,
      EARTH_MEAN_RADIUS = 63710087714 / 10000,
      EARTH_SURFACE_AREA = 4 * pi * (63710087714 / 10000)\<^sup>2\<rparr>"

text \<open>The axis-aligned rectangle with corners \<open>(x0, y0)\<close> and \<open>(x1, y1)\<close>, without holes.\<close>

definition rectangle :: "real \<Rightarrow> real \<Rightarrow> real \<Rightarrow> real \<Rightarrow> polygon" where
  "rectangle x0 y0 x1 y1 =
     \<lparr>exterior = [(x0, y0), (x1, y0), (x1, y1), (x0, y1), (x0, y0)], interiors = []\<rparr>"

definition is_rectangle :: "polygon \<Rightarrow> bool" where
  "is_rectangle p =
     (case exterior p of
        [a, b, c, d, e] \<Rightarrow>
          p = rectangle (fst a) (snd a) (fst c) (snd c) \<and> fst a < fst c \<and> snd a < snd c
      | _ \<Rightarrow> False)"

text \<open>
  An instance of the engine that is exact on single axis-aligned rectangles and answers
  conservatively elsewhere (not valid, nothing kept, nothing cut). A rectangle is a valid
  polygon; its bounds are its corners; clipping keeps the points of the closed rectangle;
  a vertical line through its interior cuts it into its western and eastern part, and no
  other line is asked for below.
\<close>

definition rectangle_engine :: engine where
  "rectangle_engine =
     \<lparr>is_valid = (\<lambda>g. case g of Polygon p \<Rightarrow> is_rectangle p | _ \<Rightarrow> False),
      bounds = (\<lambda>g. case g of
                  Polygon p \<Rightarrow>
                    (case exterior p of
                       [a, b, c, d, e] \<Rightarrow> (fst a, snd a, fst c, snd c)
                     | _ \<Rightarrow> (0, 0, 0, 0))
                | _ \<Rightarrow> (0, 0, 0, 0)),
      clip_keeps = (\<lambda>g pt. case g of
                      Polygon p \<Rightarrow>
                        (case exterior p of
                           [a, b, c, d, e] \<Rightarrow>
                             is_rectangle p \<and> fst a \<le> fst pt \<and> fst pt \<le> fst c
                               \<and> snd a \<le> snd pt \<and> snd pt \<le> snd c
                         | _ \<Rightarrow> False)
                    | _ \<Rightarrow> False),
      split = (\<lambda>g line. case (g, line) of
                 (Polygon p, [(x, y0), (x', y1)]) \<Rightarrow>
                   (case exterior p of
                      [a, b, c, d, e] \<Rightarrow>
                        if is_rectangle p \<and> x = x' \<and> fst a < x \<and> x < fst c
                           \<and> y0 \<le> snd a \<and> snd c \<le> y1
                        then [Polygon (rectangle (fst a) (snd a) x (snd c)),
                              Polygon (rectangle x (snd a) (fst c) (snd c))]
                        else [g]
                    | _ \<Rightarrow> [g])
               | _ \<Rightarrow> [g]),
      crosses = (\<lambda>g line. False),
      interp_sorted = (\<lambda>x lon shift. 0)\<rparr>"

section \<open>Identity of the split on polygons inside the bounds\<close>

lemma list_all_np_diff:
  "list_all P (np_diff xs) \<longleftrightarrow> (\<forall>k. Suc k < length xs \<longrightarrow> P (xs ! Suc k - xs ! k))"
proof (induction xs rule: np_diff.induct)
  case (1 a b xs)
  show ?case
  proof
    assume h: "list_all P (np_diff (a # b # xs))"
    show "\<forall>k. Suc k < length (a # b # xs) \<longrightarrow> P ((a # b # xs) ! Suc k - (a # b # xs) ! k)"
    proof (intro allI impI)
      fix k assume k: "Suc k < length (a # b # xs)"
      show "P ((a # b # xs) ! Suc k - (a # b # xs) ! k)"
      proof (cases k)
        case 0 then show ?thesis using h by simp
      next
        case (Suc m)
        then have "Suc m < length (b # xs)" using k by simp
        moreover have "list_all P (np_diff (b # xs))" using h by simp
        ultimately have "P ((b # xs) ! Suc m - (b # xs) ! m)" using 1 by blast
        then show ?thesis using Suc by simp
      qed
    qed
  next
    assume h: "\<forall>k. Suc k < length (a # b # xs) \<longrightarrow> P ((a # b # xs) ! Suc k - (a # b # xs) ! k)"
    have "P (b - a)" using h[rule_format, of 0] by simp
    moreover have "\<forall>k. Suc k < length (b # xs) \<longrightarrow> P ((b # xs) ! Suc k - (b # xs) ! k)"
    proof (intro allI impI)
      fix k assume "Suc k < length (b # xs)"
      then show "P ((b # xs) ! Suc k - (b # xs) ! k)" using h[rule_format, of "Suc k"] by simp
    qed
    ultimately show "list_all P (np_diff (a # b # xs))" using 1 by simp
  qed
qed simp_all

text \<open>
  C8. A polygon whose exterior coordinates lie in [-180, 180] x [-90, 90] and whose
  consecutive exterior vertices differ in longitude by less than 180 degrees is returned
  by \<open>split_polygon\<close> as it is, whatever the geometry engine: none of the three steps
  reaches a cut.
\<close>

theorem split_polygon_identity:
  assumes inside: "\<forall>c \<in> set (exterior p).
             -180 \<le> fst c \<and> fst c \<le> 180 \<and> -90 \<le> snd c \<and> snd c \<le> 90"
    and no_crossing: "\<forall>k. Suc k < length (exterior p) \<longrightarrow>
           \<bar>fst (exterior p ! Suc k) - fst (exterior p ! k)\<bar> < 180"
  shows "split_polygon E (Polygon p) = Inr (Polygon p)"
proof -
  have "list_all (\<lambda>d. \<bar>d\<bar> < 180) (np_diff (map fst (exterior p)))"
    using no_crossing by (simp add: list_all_np_diff)
  then have a: "split_polygon_antimeridian E (Polygon p) = Inr (Polygon p)"
    by (simp add: split_polygon_antimeridian_def per_polygon_def
        split_polygon_antimeridian_Polygon_def)
  have "list_all (\<lambda>lat. -90 \<le> lat) (map snd (exterior p))"
    using inside by (simp add: list_all_iff)
  then have s: "split_polygon_south_pole E (Polygon p) = Inr (Polygon p)"
    by (simp add: split_polygon_south_pole_def per_polygon_def
        split_polygon_south_pole_Polygon_def)
  have "list_all (\<lambda>c. snd c \<le> 90) (exterior p)"
    using inside by (simp add: list_all_iff)
  then have n: "split_polygon_north_pole E (Polygon p) = Inr (Polygon p)"
    by (simp add: split_polygon_north_pole_def per_polygon_def
        split_polygon_north_pole_Polygon_def)
  show ?thesis by (simp add: split_polygon_def a s n)
qed

theorem split_polygon_identity_witness:
  "split_polygon rectangle_engine (Polygon (rectangle 0 0 10 10))
     = Inr (Polygon (rectangle 0 0 10 10))"
proof -
  have 1: "\<forall>c \<in> set (exterior (rectangle 0 0 10 10)).
             -180 \<le> fst c \<and> fst c \<le> 180 \<and> -90 \<le> snd c \<and> snd c \<le> 90"
    by (simp add: rectangle_def)
  have 2: "\<forall>k. Suc k < length (exterior (rectangle 0 0 10 10)) \<longrightarrow>
           \<bar>fst (exterior (rectangle 0 0 10 10) ! Suc k)
             - fst (exterior (rectangle 0 0 10 10) ! k)\<bar> < 180"
  proof (intro allI impI)
    fix k assume "Suc k < length (exterior (rectangle 0 0 10 10))"
    then have "k \<in> {0, 1, 2, 3}" by (auto simp: rectangle_def)
    then show "\<bar>fst (exterior (rectangle 0 0 10 10) ! Suc k)
                 - fst (exterior (rectangle 0 0 10 10) ! k)\<bar> < 180"
      by (auto simp: rectangle_def)
  qed
  show ?thesis using split_polygon_identity[OF 1 2] .
qed

section \<open>The sample count at a concrete distance\<close>


lemma compute_number_samples_third:
  assumes R: "0 < EARTH_MEAN_RADIUS K"
    and A: "EARTH_SURFACE_AREA K = 4 * pi * (EARTH_MEAN_RADIUS K)\<^sup>2"
  shows "compute_number_samples K (2 * pi * EARTH_MEAN_RADIUS K / 3) = Inr 4"
proof -
  let ?R = "EARTH_MEAN_RADIUS K"
  have th: "2 * pi * ?R / 3 / ?R / 2 = pi / 3" using R by simp
  have area: "2 * pi * ?R * (?R - ?R * cos (pi / 3)) = pi * ?R\<^sup>2"
    by (simp add: cos_60 power2_eq_square algebra_simps)
  have nz: "pi * ?R\<^sup>2 \<noteq> 0" using R by simp
  have q: "EARTH_SURFACE_AREA K / (pi * ?R\<^sup>2) = 4" using nz by (simp add: A)
  show ?thesis
    unfolding compute_number_samples_def Let_def th area q using nz by (simp add: py_int_def)
qed

lemma reference_samples:
  "compute_number_samples reference_constants
     (2 * pi * EARTH_MEAN_RADIUS reference_constants / 3) = Inr 4"
  by (rule compute_number_samples_third) (simp_all add: reference_constants_def)

section \<open>The wrap steps\<close>


lemma py_Polygon_well_formed:
  "list_all well_formed shell \<Longrightarrow> list_all (list_all well_formed) holes \<Longrightarrow>
   py_Polygon shell holes = Inr \<lparr>exterior = close_ring (map to_coord shell),
                                 interiors = map (\<lambda>h. close_ring (map to_coord h)) holes\<rparr>"
  by (simp add: py_Polygon_def)

lemma well_formed_north: "list_all well_formed (map (wrap_north_coord s) cs)"
  by (simp add: list_all_iff well_formed_def wrap_north_coord_def)

lemma well_formed_north_holes: "list_all (list_all well_formed) (map (map (wrap_north_coord s)) hs)"
  by (simp add: list_all_iff well_formed_def wrap_north_coord_def)

lemma wrap_north_returns:
  "\<exists>q. wrap_polygon_over_north_pole E (Polygon p) = Inr (Polygon q)"
  by (simp add: wrap_polygon_over_north_pole_def per_polygon_def
      wrap_polygon_over_north_pole_Polygon_def Let_def valid_or_original_def
      py_Polygon_well_formed[OF well_formed_north well_formed_north_holes])

text \<open>
  C3. The claim that no wrap step raises on a Polygon fails on the code in two places.
  The south-pole wrap of a polygon with a vertex below -90 degrees and an interior ring
  raises in the Polygon constructor, before the validity check, because every interior
  coordinate is built with a 1-tuple as its first component; the north-pole wrap builds
  pairs and always returns. The antimeridian wrap of a polygon whose exterior lies on both
  sides of 180 degrees reads \<open>pgon\<close> before any assignment to it.
\<close>


theorem wrap_raises:
  "wrap_polygon_over_south_pole E
     (Polygon \<lparr>exterior = [(0, -80), (40, -80), (20, -95), (0, -80)],
               interiors = [[(18, -84), (22, -84), (20, -86), (18, -84)]]\<rparr>) = Inl TypeError
   \<and> wrap_polygon_over_antimeridian E (Polygon (rectangle 170 0 190 10)) = Inl UnboundLocalError"
  by (simp add: wrap_polygon_over_south_pole_def per_polygon_def
      wrap_polygon_over_south_pole_Polygon_def py_Polygon_def well_formed_def
      wrap_south_interior_coord_def wrap_south_coord_def
      wrap_polygon_over_antimeridian_def wrap_polygon_over_antimeridian_Polygon_def rectangle_def)

lemma well_formed_south: "list_all well_formed (map (wrap_south_coord s) cs)"
  by (simp add: list_all_iff well_formed_def wrap_south_coord_def)

lemma to_coord_north:
  "to_coord (wrap_north_coord s c) = (if 90 \<le> snd c then (fst c + s, 180 - snd c) else c)"
  by (simp add: to_coord_def wrap_north_coord_def)

lemma to_coord_south:
  "to_coord (wrap_south_coord s c) = (if snd c \<le> -90 then (fst c + s, -180 - snd c) else c)"
  by (simp add: to_coord_def wrap_south_coord_def)

text \<open>
  C10, as amended. For a Polygon with an exterior vertex beyond the pole, the wrap rebuilds
  the polygon with the longitude shift (+180 when every exterior longitude is at most 0,
  -180 otherwise) and the latitude reflection applied to every vertex, of the exterior and
  of the interior rings, whose latitude is at or beyond the pole latitude, and returns the
  rebuilt polygon when it is valid, the original polygon otherwise. For the south pole
  this is stated for polygons without interior rings.
\<close>


theorem pole_wrap_reflects:
  "(\<not> list_all (\<lambda>c. snd c \<le> 90) (exterior p) \<longrightarrow>
      wrap_polygon_over_north_pole E (Polygon p) =
        (let s = (if list_all (\<lambda>c. fst c \<le> 0) (exterior p) then 180 else -180);
             f = (\<lambda>c. if 90 \<le> snd c then (fst c + s, 180 - snd c) else c);
             q = \<lparr>exterior = close_ring (map f (exterior p)),
                  interiors = map (\<lambda>h. close_ring (map f h)) (interiors p)\<rparr>
         in Inr (Polygon (if is_valid E (Polygon q) then q else p))))
   \<and> (\<not> list_all (\<lambda>c. -90 \<le> snd c) (exterior p') \<and> interiors p' = [] \<longrightarrow>
      wrap_polygon_over_south_pole E (Polygon p') =
        (let s = (if list_all (\<lambda>c. fst c \<le> 0) (exterior p') then 180 else -180);
             f = (\<lambda>c. if snd c \<le> -90 then (fst c + s, -180 - snd c) else c);
             q = \<lparr>exterior = close_ring (map f (exterior p')), interiors = []\<rparr>
         in Inr (Polygon (if is_valid E (Polygon q) then q else p'))))"
proof (intro conjI impI)
  assume "\<not> list_all (\<lambda>c. snd c \<le> 90) (exterior p)"
  then show "wrap_polygon_over_north_pole E (Polygon p) =
        (let s = (if list_all (\<lambda>c. fst c \<le> 0) (exterior p) then 180 else -180);
             f = (\<lambda>c. if 90 \<le> snd c then (fst c + s, 180 - snd c) else c);
             q = \<lparr>exterior = close_ring (map f (exterior p)),
                  interiors = map (\<lambda>h. close_ring (map f h)) (interiors p)\<rparr>
         in Inr (Polygon (if is_valid E (Polygon q) then q else p)))"
    by (simp add: wrap_polygon_over_north_pole_def per_polygon_def
        wrap_polygon_over_north_pole_Polygon_def Let_def valid_or_original_def
        py_Polygon_well_formed[OF well_formed_north well_formed_north_holes]
        comp_def to_coord_north)
next
  assume "\<not> list_all (\<lambda>c. -90 \<le> snd c) (exterior p') \<and> interiors p' = []"
  then show "wrap_polygon_over_south_pole E (Polygon p') =
        (let s = (if list_all (\<lambda>c. fst c \<le> 0) (exterior p') then 180 else -180);
             f = (\<lambda>c. if snd c \<le> -90 then (fst c + s, -180 - snd c) else c);
             q = \<lparr>exterior = close_ring (map f (exterior p')), interiors = []\<rparr>
         in Inr (Polygon (if is_valid E (Polygon q) then q else p')))"
    by (simp add: wrap_polygon_over_south_pole_def per_polygon_def
        wrap_polygon_over_south_pole_Polygon_def Let_def valid_or_original_def
        py_Polygon_well_formed[OF well_formed_south]
        comp_def to_coord_south)
qed

lemma is_rectangle_rectangle: "x0 < x1 \<Longrightarrow> y0 < y1 \<Longrightarrow> is_rectangle (rectangle x0 y0 x1 y1)"
  by (simp add: is_rectangle_def rectangle_def)

theorem pole_wrap_reflects_witness:
  "wrap_polygon_over_north_pole rectangle_engine
      (Polygon \<lparr>exterior = [(10, 100), (20, 100), (20, 90), (10, 90), (10, 100)], interiors = []\<rparr>)
     = Inr (Polygon (rectangle (-170) 80 (-160) 90))
   \<and> wrap_polygon_over_south_pole rectangle_engine
      (Polygon \<lparr>exterior = [(-20, -90), (-10, -90), (-10, -100), (-20, -100), (-20, -90)], interiors = []\<rparr>)
     = Inr (Polygon (rectangle 160 (-90) 170 (-80)))"
proof -
  let ?n = "\<lparr>exterior = [(10, 100), (20, 100), (20, 90), (10, 90), (10::real, 100::real)], interiors = []\<rparr>"
  let ?s = "\<lparr>exterior = [(-20, -90), (-10, -90), (-10, -100), (-20, -100), (-20::real, -90::real)], interiors = []\<rparr>"
  have v: "is_valid rectangle_engine (Polygon (rectangle (-170) 80 (-160) 90))"
          "is_valid rectangle_engine (Polygon (rectangle 160 (-90) 170 (-80)))"
    by (simp_all add: rectangle_engine_def is_rectangle_rectangle)
  have n: "\<not> list_all (\<lambda>c. snd c \<le> 90) (exterior ?n)" by simp
  have s: "\<not> list_all (\<lambda>c. -90 \<le> snd c) (exterior ?s) \<and> interiors ?s = []" by simp
  have qn: "\<lparr>exterior = close_ring (map (\<lambda>c. if 90 \<le> snd c then (fst c + (-180), 180 - snd c) else c) (exterior ?n)),
             interiors = map (\<lambda>h. close_ring (map (\<lambda>c. if 90 \<le> snd c then (fst c + (-180), 180 - snd c) else c) h)) (interiors ?n)\<rparr>
            = rectangle (-170) 80 (-160) 90"
    by (simp add: close_ring_def rectangle_def)
  have qs: "\<lparr>exterior = close_ring (map (\<lambda>c. if snd c \<le> -90 then (fst c + 180, -180 - snd c) else c) (exterior ?s)),
             interiors = []\<rparr>
            = rectangle 160 (-90) 170 (-80)"
    by (simp add: close_ring_def rectangle_def)
  from pole_wrap_reflects[of ?n rectangle_engine ?s] n s
  have "wrap_polygon_over_north_pole rectangle_engine (Polygon ?n) =
        (let s = (if list_all (\<lambda>c. fst c \<le> 0) (exterior ?n) then 180 else -180);
             f = (\<lambda>c. if 90 \<le> snd c then (fst c + s, 180 - snd c) else c);
             q = \<lparr>exterior = close_ring (map f (exterior ?n)),
                  interiors = map (\<lambda>h. close_ring (map f h)) (interiors ?n)\<rparr>
         in Inr (Polygon (if is_valid rectangle_engine (Polygon q) then q else ?n)))"
    and "wrap_polygon_over_south_pole rectangle_engine (Polygon ?s) =
        (let s = (if list_all (\<lambda>c. fst c \<le> 0) (exterior ?s) then 180 else -180);
             f = (\<lambda>c. if snd c \<le> -90 then (fst c + s, -180 - snd c) else c);
             q = \<lparr>exterior = close_ring (map f (exterior ?s)), interiors = []\<rparr>
         in Inr (Polygon (if is_valid rectangle_engine (Polygon q) then q else ?s)))"
    by blast+
  then show ?thesis
    unfolding Let_def using qn qs v by simp
qed

text \<open>
  C10 as stated fails where the rebuilt polygon is not valid: the reflection of the two
  vertices at 95 degrees puts all four corners on the 85th parallel, the rebuilt ring has
  no area, and the wrap returns the original polygon with its vertices beyond the pole.
\<close>


theorem pole_wrap_keeps_invalid_counterexample:
  "wrap_polygon_over_north_pole rectangle_engine (Polygon (rectangle 10 85 20 95))
     = Inr (Polygon (rectangle 10 85 20 95))
   \<and> (20, 95) \<in> set (exterior (rectangle 10 85 20 95))"
  by (simp add: wrap_polygon_over_north_pole_def per_polygon_def
        wrap_polygon_over_north_pole_Polygon_def Let_def valid_or_original_def
        py_Polygon_def well_formed_def wrap_north_coord_def to_coord_def close_ring_def
        rectangle_def rectangle_engine_def is_rectangle_def)

section \<open>The antimeridian split\<close>












section \<open>Validation errors\<close>




section \<open>The Fibonacci lattice\<close>


lemma lat_arg_bounds:
  assumes "0 \<le> i" "i < n"
  shows "-1 < 2 * (of_int i + 1) / (of_int n + 2) - (1::real)"
    and "2 * (of_int i + 1) / (of_int n + 2) - (1::real) < 1"
proof -
  have n: "(0::real) < of_int n + 2" using assms by simp
  have "(0::real) < 2 * (of_int i + 1) / (of_int n + 2)" using assms n by simp
  then show "-1 < 2 * (of_int i + 1) / (of_int n + 2) - (1::real)" by simp
  have "2 * (of_int i + 1) < 2 * (of_int n + 2 :: real)" using assms by simp
  then have "2 * (of_int i + 1) / (of_int n + 2) < (2::real)"
    using n by (simp add: pos_divide_less_eq)
  then show "2 * (of_int i + 1) / (of_int n + 2) - (1::real) < 1" by simp
qed

lemma degrees_less_iff: "degrees x < degrees y \<longleftrightarrow> x < y"
  by (simp add: degrees_def divide_strict_right_mono pos_divide_less_eq)

lemma degrees_half_pi: "degrees (pi / 2) = 90" "degrees (- (pi / 2)) = -90"
  by (simp_all add: degrees_def)

lemma compute_latitude_bounds:
  assumes "0 \<le> i" "i < n"
  shows "-90 < compute_latitude i n" "compute_latitude i n < 90"
proof -
  let ?y = "2 * (of_int i + 1) / (of_int n + 2) - (1::real)"
  have b: "- (pi / 2) < arcsin ?y \<and> arcsin ?y < pi / 2"
    using lat_arg_bounds[OF assms] by (intro arcsin_lt_bounded)
  have "degrees (- (pi / 2)) < degrees (arcsin ?y)" using b by (simp only: degrees_less_iff)
  then show "-90 < compute_latitude i n" by (simp add: compute_latitude_def degrees_half_pi)
  have "degrees (arcsin ?y) < degrees (pi / 2)" using b by (simp only: degrees_less_iff)
  then show "compute_latitude i n < 90" by (simp add: compute_latitude_def degrees_half_pi)
qed

lemma compute_latitude_strict_mono:
  assumes "0 \<le> i" "i < j" "j < n"
  shows "compute_latitude i n < compute_latitude j n"
proof -
  let ?y = "\<lambda>k::int. 2 * (of_int k + 1) / (of_int n + 2) - (1::real)"
  have n: "(0::real) < of_int n + 2" using assms by simp
  have "2 * (of_int i + 1) < (2 * (of_int j + 1) :: real)" using assms by simp
  then have lt: "?y i < ?y j" using n by (simp add: divide_strict_right_mono)
  have bi: "\<bar>?y i\<bar> \<le> 1"
    using lat_arg_bounds(1)[of i n] lat_arg_bounds(2)[of i n] assms by linarith
  have bj: "\<bar>?y j\<bar> \<le> 1"
    using lat_arg_bounds(1)[of j n] lat_arg_bounds(2)[of j n] assms by linarith
  have "arcsin (?y i) < arcsin (?y j)" using lt bi bj by (simp add: arcsin_less_mono)
  then show ?thesis by (simp only: compute_latitude_def degrees_less_iff)
qed

lemma np_mod_range: assumes "0 < m" shows "0 \<le> np_mod x m" "np_mod x m < m"
proof -
  have x: "m * (x / m) = x" using assms by simp
  have "m * of_int \<lfloor>x / m\<rfloor> \<le> m * (x / m)"
    using assms by (intro mult_left_mono) simp_all
  then have "m * of_int \<lfloor>x / m\<rfloor> \<le> x" by (simp only: x)
  then show "0 \<le> np_mod x m" by (simp add: np_mod_def)
  have "x / m < of_int \<lfloor>x / m\<rfloor> + 1" by linarith
  then have "m * (x / m) < m * (of_int \<lfloor>x / m\<rfloor> + 1)"
    using assms by (intro mult_strict_left_mono) simp_all
  then have "x < m * (of_int \<lfloor>x / m\<rfloor> + 1)" by (simp only: x)
  then show "np_mod x m < m" by (simp add: np_mod_def algebra_simps)
qed

lemma compute_longitude_range: "-180 < compute_longitude i n" "compute_longitude i n \<le> 180"
  using np_mod_range[of 360 "360 * of_int i / ((1 + sqrt 5) / 2)"]
  by (auto simp: compute_longitude_def Let_def)

lemma lattice_unmasked:
  assumes "compute_number_samples K d = Inr N"
  shows "generate_fibonacci_lattice_points K E d None =
     Inr (map (\<lambda>i. \<lparr>point_id = i, longitude = compute_longitude i N,
                      latitude = compute_latitude i N\<rparr>) [0..N - 1])"
  using assms
  by (simp add: generate_fibonacci_lattice_points_def total_bounds_def py_range_def
      lattice_longitude_def)

text \<open>
  C1. When the sample count \<open>N\<close> has been computed from the distance and \<open>0 \<le> i < N\<close>, the
  sampler without a mask returns \<open>N\<close> points, and the point at index \<open>i\<close> has id \<open>i\<close>,
  latitude \<open>arcsin (2 (i + 1) / (N + 2) - 1)\<close> in degrees and longitude
  \<open>360 i / phi\<close> reduced modulo 360, less 360 when that exceeds 180, with \<open>phi\<close> the golden
  ratio. The longitude lies in (-180, 180], the latitude strictly between -90 and 90, and
  the latitudes increase strictly with the index.
\<close>


theorem lattice_point_formula:
  assumes N: "compute_number_samples K d = Inr N" and i: "0 \<le> i" "i < N"
  shows "\<exists>ps. generate_fibonacci_lattice_points K E d None = Inr ps
      \<and> length ps = nat N
      \<and> ps ! nat i =
           \<lparr>point_id = i,
            longitude =
              (let x = 360 * of_int i / ((1 + sqrt 5) / 2);
                   m = x - 360 * of_int \<lfloor>x / 360\<rfloor>
               in if 180 < m then m - 360 else m),
            latitude = arcsin (2 * (of_int i + 1) / (of_int N + 2) - 1) * 180 / pi\<rparr>
      \<and> -180 < longitude (ps ! nat i) \<and> longitude (ps ! nat i) \<le> 180
      \<and> -90 < latitude (ps ! nat i) \<and> latitude (ps ! nat i) < 90
      \<and> (\<forall>j. i < j \<and> j < N \<longrightarrow> latitude (ps ! nat i) < latitude (ps ! nat j))"
proof -
  let ?f = "\<lambda>i. \<lparr>point_id = i, longitude = compute_longitude i N,
                   latitude = compute_latitude i N\<rparr>"
  let ?ps = "map ?f [0..N - 1]"
  have gen: "generate_fibonacci_lattice_points K E d None = Inr ?ps"
    using N by (rule lattice_unmasked)
  have len: "length ?ps = nat N" by simp
  have nth: "?ps ! nat j = ?f j" if "0 \<le> j" "j < N" for j
  proof -
    have "nat j < length [0..N - 1]" using that by simp
    moreover have "[0..N - 1] ! nat j = j" using that by simp
    ultimately show ?thesis by (simp del: length_upto)
  qed
  have formula: "?f i =
           \<lparr>point_id = i,
            longitude =
              (let x = 360 * of_int i / ((1 + sqrt 5) / 2);
                   m = x - 360 * of_int \<lfloor>x / 360\<rfloor>
               in if 180 < m then m - 360 else m),
            latitude = arcsin (2 * (of_int i + 1) / (of_int N + 2) - 1) * 180 / pi\<rparr>"
    by (simp only: compute_longitude_def compute_latitude_def np_mod_def degrees_def Let_def)
  have mono: "\<forall>j. i < j \<and> j < N \<longrightarrow> latitude (?ps ! nat i) < latitude (?ps ! nat j)"
  proof (intro allI impI)
    fix j assume j: "i < j \<and> j < N"
    then have "compute_latitude i N < compute_latitude j N"
      using i by (intro compute_latitude_strict_mono) simp_all
    moreover have "?ps ! nat j = ?f j" using j i by (intro nth) simp_all
    moreover have "?ps ! nat i = ?f i" using i by (intro nth)
    ultimately show "latitude (?ps ! nat i) < latitude (?ps ! nat j)" by simp
  qed
  have here: "?ps ! nat i = ?f i" using i by (intro nth)
  have lon: "-180 < longitude (?ps ! nat i) \<and> longitude (?ps ! nat i) \<le> 180"
    unfolding here using compute_longitude_range[of i N] by simp
  have lat: "-90 < latitude (?ps ! nat i) \<and> latitude (?ps ! nat i) < 90"
    unfolding here using compute_latitude_bounds[OF i] by simp
  show ?thesis
    using gen len here formula lon lat mono by (intro exI[of _ ?ps]) (simp only: simp_thms)
qed


theorem lattice_point_formula_witness:
  "\<exists>ps. generate_fibonacci_lattice_points reference_constants rectangle_engine
           (2 * pi * EARTH_MEAN_RADIUS reference_constants / 3) None = Inr ps
      \<and> length ps = 4
      \<and> point_id (ps ! 1) = 1
      \<and> latitude (ps ! 1) = arcsin (- (1 / 3)) * 180 / pi
      \<and> -180 < longitude (ps ! 1) \<and> longitude (ps ! 1) \<le> 180
      \<and> -90 < latitude (ps ! 1) \<and> latitude (ps ! 1) < 90
      \<and> latitude (ps ! 1) < latitude (ps ! 2)"
proof -
  have i: "(0::int) \<le> 1" "(1::int) < 4" by simp_all
  from lattice_point_formula[OF reference_samples i, of rectangle_engine]
  obtain ps where ps:
    "generate_fibonacci_lattice_points reference_constants rectangle_engine
           (2 * pi * EARTH_MEAN_RADIUS reference_constants / 3) None = Inr ps"
    "length ps = nat 4"
    "ps ! nat 1 =
           \<lparr>point_id = 1,
            longitude =
              (let x = 360 * of_int 1 / ((1 + sqrt 5) / 2);
                   m = x - 360 * of_int \<lfloor>x / 360\<rfloor>
               in if 180 < m then m - 360 else m),
            latitude = arcsin (2 * (of_int 1 + 1) / (of_int 4 + 2) - 1) * 180 / pi\<rparr>"
    "-180 < longitude (ps ! nat 1)" "longitude (ps ! nat 1) \<le> 180"
    "-90 < latitude (ps ! nat 1)" "latitude (ps ! nat 1) < 90"
    "\<forall>j. 1 < j \<and> j < 4 \<longrightarrow> latitude (ps ! nat 1) < latitude (ps ! nat j)"
    by blast
  have one: "nat 1 = (1::nat)" and two: "nat 2 = (2::nat)" by simp_all
  have "latitude (ps ! nat 1) < latitude (ps ! nat 2)"
    using ps(8)[rule_format, of 2] by simp
  moreover have "latitude (ps ! nat 1) = arcsin (- (1 / 3)) * 180 / pi"
    using ps(3) by simp
  moreover have "point_id (ps ! nat 1) = 1" using ps(3) by simp
  ultimately show ?thesis
    using ps(1,2,4,5,6,7) unfolding one two by (intro exI[of _ ps]) simp
qed

section \<open>The lattice at a concrete distance\<close>














section \<open>The grid: rounding and ranges\<close>




lemma np_round_floor: "\<lfloor>x\<rfloor> \<le> np_round x" "np_round x \<le> \<lfloor>x\<rfloor> + 1"
  by (auto simp: np_round_def Let_def)

lemma np_round_of_int: "np_round (of_int k) = k"
  by (simp add: np_round_def)




section \<open>The lattice under a mask\<close>











section \<open>The grid without a mask\<close>


lemma degrees_pos: "0 < x \<Longrightarrow> 0 < degrees x"
  by (simp add: degrees_def)

lemma grid_indices_globe:
  assumes "theta \<noteq> 0"
  shows "grid_indices theta theta (-180, -90, 180, 90) =
     Inr (concat (map (\<lambda>j. map (\<lambda>i. (i, j)) (py_range 0 (np_round (360 / theta))))
                      (py_range 0 (np_round (180 / theta)))))"
proof -
  have z: "np_round 0 = 0" by (simp add: np_round_def)
  show ?thesis
    using assms by (simp add: grid_indices_def int_round_div_def z)
qed

lemma grid_steps_unmasked:
  assumes "theta \<noteq> 0"
  shows "generate_cubed_sphere_points_steps E theta theta None =
     Inr (concat (map (\<lambda>j. map (\<lambda>i. \<lparr>point_id = compute_id i j theta theta,
                                        longitude = -180 + (of_int i + 1 / 2) * theta,
                                        latitude = -90 + (of_int j + 1 / 2) * theta\<rparr>)
                              (py_range 0 (np_round (360 / theta))))
                      (py_range 0 (np_round (180 / theta)))))"
  by (simp add: generate_cubed_sphere_points_steps_def total_bounds_def
      grid_indices_globe[OF assms] map_concat comp_def)

lemma length_rows:
  "length (concat (map (\<lambda>j. map (f j) xs) ys)) = length ys * length xs"
  by (induction ys) simp_all

lemma nth_rows:
  "k < length ys \<Longrightarrow> l < length xs \<Longrightarrow>
   concat (map (\<lambda>j. map (f j) xs) ys) ! (k * length xs + l) = f (ys ! k) (xs ! l)"
proof (induction ys arbitrary: k)
  case Nil
  then show ?case by simp
next
  case (Cons y ys)
  show ?case
  proof (cases k)
    case 0
    then show ?thesis using Cons.prems by (simp add: nth_append)
  next
    case (Suc k')
    then have "k' < length ys" using Cons.prems by simp
    then have "concat (map (\<lambda>j. map (f j) xs) ys) ! (k' * length xs + l) = f (ys ! k') (xs ! l)"
      using Cons.IH Cons.prems by blast
    then show ?thesis using Suc by (simp add: nth_append)
  qed
qed


lemma grid_unmasked_core:
  assumes theta: "0 < theta"
  defines "nx \<equiv> np_round (360 / theta)" and "ny \<equiv> np_round (180 / theta)"
  shows "\<exists>ps. generate_cubed_sphere_points_steps E theta theta None = Inr ps
      \<and> length ps = nat ny * nat nx
      \<and> (\<forall>i j. 0 \<le> i \<and> i < nx \<and> 0 \<le> j \<and> j < ny \<longrightarrow>
            ps ! (nat j * nat nx + nat i) =
              \<lparr>point_id = compute_id i j theta theta,
               longitude = -180 + (of_int i + 1 / 2) * theta,
               latitude = -90 + (of_int j + 1 / 2) * theta\<rparr>)"
proof -
  let ?pt = "\<lambda>j i. \<lparr>point_id = compute_id i j theta theta,
                     longitude = -180 + (of_int i + 1 / 2) * theta,
                     latitude = -90 + (of_int j + 1 / 2) * theta\<rparr>"
  let ?ps = "concat (map (\<lambda>j. map (?pt j) [0..nx - 1]) [0..ny - 1])"
  have gen: "generate_cubed_sphere_points_steps E theta theta None = Inr ?ps"
    using theta by (simp add: grid_steps_unmasked py_range_def nx_def ny_def)
  have len: "length ?ps = nat ny * nat nx"
    by (simp only: length_rows) simp
  have nth: "?ps ! (nat j * nat nx + nat i) = ?pt j i"
    if "0 \<le> i \<and> i < nx \<and> 0 \<le> j \<and> j < ny" for i j
  proof -
    have lx: "length [0..nx - 1] = nat nx" and ly: "length [0..ny - 1] = nat ny" by simp_all
    have k: "nat j < length [0..ny - 1]" and l: "nat i < length [0..nx - 1]"
      using that by simp_all
    have xi: "[0..nx - 1] ! nat i = i" and yj: "[0..ny - 1] ! nat j = j"
      using that by simp_all
    from nth_rows[OF k l, of ?pt] show ?thesis by (simp only: lx xi yj)
  qed
  from gen len nth show ?thesis by blast
qed

text \<open>
  C6. For a positive distance and radius, with \<open>theta\<close> the angular step in degrees, the
  grid sampler without a mask returns \<open>nx * ny\<close> points, where \<open>nx\<close> is \<open>360 / theta\<close> and \<open>ny\<close>
  is \<open>180 / theta\<close>, rounded: each is the floor of the quotient or one more. The points are
  listed row by row; the point of column \<open>i\<close> and row \<open>j\<close> lies at longitude
  \<open>-180 + (i + 1/2) theta\<close> and latitude \<open>-90 + (j + 1/2) theta\<close>, so neighbours in a row
  differ by \<open>theta\<close> in longitude and neighbours in a column by \<open>theta\<close> in latitude.
\<close>


theorem grid_unmasked:
  assumes d: "0 < d" and R: "0 < earth_mean_radius K"
  shows "let theta = degrees (d / earth_mean_radius K);
             nx = np_round (360 / theta); ny = np_round (180 / theta)
         in \<lfloor>360 / theta\<rfloor> \<le> nx \<and> nx \<le> \<lfloor>360 / theta\<rfloor> + 1
          \<and> \<lfloor>180 / theta\<rfloor> \<le> ny \<and> ny \<le> \<lfloor>180 / theta\<rfloor> + 1
          \<and> (\<exists>ps. generate_cubed_sphere_points K E d None = Inr ps
                \<and> length ps = nat nx * nat ny
                \<and> (\<forall>i j. 0 \<le> i \<and> i < nx \<and> 0 \<le> j \<and> j < ny \<longrightarrow>
                      longitude (ps ! (nat j * nat nx + nat i))
                        = -180 + (of_int i + 1 / 2) * theta
                    \<and> latitude (ps ! (nat j * nat nx + nat i))
                        = -90 + (of_int j + 1 / 2) * theta)
                \<and> (\<forall>i j. 0 \<le> i \<and> i + 1 < nx \<and> 0 \<le> j \<and> j < ny \<longrightarrow>
                      longitude (ps ! (nat j * nat nx + nat i + 1))
                        - longitude (ps ! (nat j * nat nx + nat i)) = theta)
                \<and> (\<forall>i j. 0 \<le> i \<and> i < nx \<and> 0 \<le> j \<and> j + 1 < ny \<longrightarrow>
                      latitude (ps ! (nat j * nat nx + nat i + nat nx))
                        - latitude (ps ! (nat j * nat nx + nat i)) = theta))"
proof -
  define theta where "theta = degrees (d / earth_mean_radius K)"
  define nx where "nx = np_round (360 / theta)"
  define ny where "ny = np_round (180 / theta)"
  have theta: "0 < theta" unfolding theta_def using d R by (intro degrees_pos) simp
  from grid_unmasked_core[OF theta, of E] obtain ps where
    gen: "generate_cubed_sphere_points_steps E theta theta None = Inr ps"
    and len: "length ps = nat ny * nat nx"
    and nth: "\<And>i j. 0 \<le> i \<and> i < nx \<and> 0 \<le> j \<and> j < ny \<Longrightarrow>
            ps ! (nat j * nat nx + nat i) =
              \<lparr>point_id = compute_id i j theta theta,
               longitude = -180 + (of_int i + 1 / 2) * theta,
               latitude = -90 + (of_int j + 1 / 2) * theta\<rparr>"
    unfolding nx_def ny_def by blast
  have pub: "generate_cubed_sphere_points K E d None = Inr ps"
    using R gen by (simp add: generate_cubed_sphere_points_def theta_def Let_def)
  have counts: "\<lfloor>360 / theta\<rfloor> \<le> nx \<and> nx \<le> \<lfloor>360 / theta\<rfloor> + 1
          \<and> \<lfloor>180 / theta\<rfloor> \<le> ny \<and> ny \<le> \<lfloor>180 / theta\<rfloor> + 1"
    unfolding nx_def ny_def using np_round_floor by blast
  have at: "\<forall>i j. 0 \<le> i \<and> i < nx \<and> 0 \<le> j \<and> j < ny \<longrightarrow>
                      longitude (ps ! (nat j * nat nx + nat i))
                        = -180 + (of_int i + 1 / 2) * theta
                    \<and> latitude (ps ! (nat j * nat nx + nat i))
                        = -90 + (of_int j + 1 / 2) * theta"
    using nth by simp
  have east: "\<forall>i j. 0 \<le> i \<and> i + 1 < nx \<and> 0 \<le> j \<and> j < ny \<longrightarrow>
                      longitude (ps ! (nat j * nat nx + nat i + 1))
                        - longitude (ps ! (nat j * nat nx + nat i)) = theta"
  proof (intro allI impI)
    fix i j assume h: "0 \<le> i \<and> i + 1 < nx \<and> 0 \<le> j \<and> j < ny"
    have "nat (i + 1) = Suc (nat i)" using h by linarith
    then have k: "nat j * nat nx + nat i + 1 = nat j * nat nx + nat (i + 1)" by simp
    have a: "longitude (ps ! (nat j * nat nx + nat (i + 1)))
               = -180 + (of_int (i + 1) + 1 / 2) * theta"
      using nth[of "i + 1" j] h by simp
    have b: "longitude (ps ! (nat j * nat nx + nat i)) = -180 + (of_int i + 1 / 2) * theta"
      using nth[of i j] h by simp
    show "longitude (ps ! (nat j * nat nx + nat i + 1))
            - longitude (ps ! (nat j * nat nx + nat i)) = theta"
      unfolding k a b by (simp add: algebra_simps)
  qed
  have north: "\<forall>i j. 0 \<le> i \<and> i < nx \<and> 0 \<le> j \<and> j + 1 < ny \<longrightarrow>
                      latitude (ps ! (nat j * nat nx + nat i + nat nx))
                        - latitude (ps ! (nat j * nat nx + nat i)) = theta"
  proof (intro allI impI)
    fix i j assume h: "0 \<le> i \<and> i < nx \<and> 0 \<le> j \<and> j + 1 < ny"
    have "nat (j + 1) = Suc (nat j)" using h by linarith
    then have k: "nat j * nat nx + nat i + nat nx = nat (j + 1) * nat nx + nat i" by simp
    have a: "latitude (ps ! (nat (j + 1) * nat nx + nat i))
               = -90 + (of_int (j + 1) + 1 / 2) * theta"
      using nth[of i "j + 1"] h by simp
    have b: "latitude (ps ! (nat j * nat nx + nat i)) = -90 + (of_int j + 1 / 2) * theta"
      using nth[of i j] h by simp
    show "latitude (ps ! (nat j * nat nx + nat i + nat nx))
            - latitude (ps ! (nat j * nat nx + nat i)) = theta"
      unfolding k a b by (simp add: algebra_simps)
  qed
  have len': "length ps = nat nx * nat ny" using len by (simp add: mult.commute)
  have "\<exists>ps. generate_cubed_sphere_points K E d None = Inr ps
                \<and> length ps = nat nx * nat ny
                \<and> (\<forall>i j. 0 \<le> i \<and> i < nx \<and> 0 \<le> j \<and> j < ny \<longrightarrow>
                      longitude (ps ! (nat j * nat nx + nat i))
                        = -180 + (of_int i + 1 / 2) * theta
                    \<and> latitude (ps ! (nat j * nat nx + nat i))
                        = -90 + (of_int j + 1 / 2) * theta)
                \<and> (\<forall>i j. 0 \<le> i \<and> i + 1 < nx \<and> 0 \<le> j \<and> j < ny \<longrightarrow>
                      longitude (ps ! (nat j * nat nx + nat i + 1))
                        - longitude (ps ! (nat j * nat nx + nat i)) = theta)
                \<and> (\<forall>i j. 0 \<le> i \<and> i < nx \<and> 0 \<le> j \<and> j + 1 < ny \<longrightarrow>
                      latitude (ps ! (nat j * nat nx + nat i + nat nx))
                        - latitude (ps ! (nat j * nat nx + nat i)) = theta)"
    using pub len' at east north by blast
  then show ?thesis
    using counts unfolding Let_def theta_def[symmetric] nx_def[symmetric] ny_def[symmetric]
    by blast
qed

section \<open>The grid at concrete steps\<close>

lemma np_round_examples:
  "np_round 2 = 2" "np_round 1 = 1" "np_round (45 / 16) = 3" "np_round (45 / 32) = 1"
proof -
  show "np_round 2 = 2" using np_round_of_int[of 2] by simp
  show "np_round 1 = 1" using np_round_of_int[of 1] by simp
  have "\<lfloor>45 / 16 :: real\<rfloor> = 2" by (rule floor_unique) simp_all
  then show "np_round (45 / 16) = 3" by (simp add: np_round_def Let_def)
  have "\<lfloor>45 / 32 :: real\<rfloor> = 1" by (rule floor_unique) simp_all
  then show "np_round (45 / 32) = 1" by (simp add: np_round_def Let_def)
qed

lemma py_int_examples: "py_int 2 = 2" "py_int (45 / 16) = 2"
proof -
  show "py_int 2 = 2" by (simp add: py_int_def)
  have "\<lfloor>45 / 16 :: real\<rfloor> = 2" by (rule floor_unique) simp_all
  then show "py_int (45 / 16) = 2" by (simp add: py_int_def)
qed

lemma reference_step:
  "degrees (c * pi * earth_mean_radius reference_constants / 180
            / earth_mean_radius reference_constants) = c"
  by (simp add: degrees_def reference_constants_def)


lemma grid_example_128:
  "generate_cubed_sphere_points_steps E 128 128 None
   = Inr [\<lparr>point_id = 0, longitude = -116, latitude = -26\<rparr>,
          \<lparr>point_id = 1, longitude = 12, latitude = -26\<rparr>,
          \<lparr>point_id = 0, longitude = 140, latitude = -26\<rparr>]"
proof -
  have r: "py_range 0 3 = [0, 1, 2]" "py_range 0 1 = [0]"
    by (simp_all add: py_range_def upto_rec1)
  show ?thesis
    by (simp add: grid_steps_unmasked np_round_examples r compute_id_def py_int_examples
        np_mod_int_def)
qed


theorem grid_unmasked_witness:
  "\<exists>ps. generate_cubed_sphere_points reference_constants rectangle_engine
           (pi * earth_mean_radius reference_constants) None = Inr ps
      \<and> length ps = 2
      \<and> longitude (ps ! 0) = -90 \<and> latitude (ps ! 0) = 0
      \<and> longitude (ps ! 1) - longitude (ps ! 0) = 180"
proof -
  have d: "0 < pi * earth_mean_radius reference_constants"
    and R: "0 < earth_mean_radius reference_constants"
    by (simp_all add: reference_constants_def)
  have n0: "nat 0 = (0::nat)" and n1: "nat 1 = (1::nat)" and n2: "nat 2 = (2::nat)" by simp_all
  have e1: "np_round (360 / 180) = 2" and e2: "np_round (180 / 180) = 1"
    by (simp_all add: np_round_examples)
  have th: "degrees (pi * earth_mean_radius reference_constants
                      / earth_mean_radius reference_constants) = 180"
    by (simp add: degrees_def reference_constants_def)
  from grid_unmasked[OF d R, of rectangle_engine, unfolded Let_def th e1 e2]
  obtain ps where
    gen: "generate_cubed_sphere_points reference_constants rectangle_engine
           (pi * earth_mean_radius reference_constants) None = Inr ps"
    and len: "length ps = nat 2 * nat 1"
    and at: "\<forall>i j. 0 \<le> i \<and> i < 2 \<and> 0 \<le> j \<and> j < 1 \<longrightarrow>
               longitude (ps ! (nat j * nat 2 + nat i)) = -180 + (of_int i + 1 / 2) * 180
             \<and> latitude (ps ! (nat j * nat 2 + nat i)) = -90 + (of_int j + 1 / 2) * 180"
    and east: "\<forall>i j. 0 \<le> i \<and> i + 1 < 2 \<and> 0 \<le> j \<and> j < 1 \<longrightarrow>
               longitude (ps ! (nat j * nat 2 + nat i + 1))
                 - longitude (ps ! (nat j * nat 2 + nat i)) = 180"
    by blast
  have "longitude (ps ! 0) = -90 \<and> latitude (ps ! 0) = 0"
    using at[rule_format, of 0 0] by simp
  moreover have "longitude (ps ! 1) - longitude (ps ! 0) = 180"
    using east[rule_format, of 0 0] by simp
  moreover have "length ps = 2" using len by simp
  ultimately show ?thesis using gen by blast
qed


lemma compute_id_formula:
  assumes "0 < theta" and "1 \<le> \<lfloor>360 / theta\<rfloor>"
  shows "compute_id i j theta theta = j * \<lfloor>360 / theta\<rfloor> + i mod \<lfloor>360 / theta\<rfloor>"
proof -
  have "0 \<le> 360 / theta" using assms(1) by simp
  then have p: "py_int (360 / theta) = \<lfloor>360 / theta\<rfloor>" by (simp add: py_int_def)
  have ne: "\<lfloor>360 / theta\<rfloor> \<noteq> 0" using assms(2) by linarith
  show ?thesis unfolding compute_id_def np_mod_int_def p using ne by simp
qed

text \<open>
  Whenever the number of columns is rounded up, the first and the last column of the
  first row get the id 0.
\<close>

lemma grid_ids_collide_when_rounded_up:
  assumes theta: "0 < theta" and nf: "1 \<le> \<lfloor>360 / theta\<rfloor>"
    and up: "np_round (360 / theta) = \<lfloor>360 / theta\<rfloor> + 1"
    and rows: "1 \<le> np_round (180 / theta)"
  shows "\<exists>ps. generate_cubed_sphere_points_steps E theta theta None = Inr ps
      \<and> nat \<lfloor>360 / theta\<rfloor> < length ps
      \<and> point_id (ps ! 0) = 0 \<and> point_id (ps ! nat \<lfloor>360 / theta\<rfloor>) = 0
      \<and> longitude (ps ! 0) \<noteq> longitude (ps ! nat \<lfloor>360 / theta\<rfloor>)"
proof -
  let ?nf = "\<lfloor>360 / theta\<rfloor>"
  from grid_unmasked_core[OF theta, of E] obtain ps where
    gen: "generate_cubed_sphere_points_steps E theta theta None = Inr ps"
    and len: "length ps = nat (np_round (180 / theta)) * nat (np_round (360 / theta))"
    and nth: "\<And>i j. 0 \<le> i \<and> i < np_round (360 / theta) \<and> 0 \<le> j \<and> j < np_round (180 / theta) \<Longrightarrow>
            ps ! (nat j * nat (np_round (360 / theta)) + nat i) =
              \<lparr>point_id = compute_id i j theta theta,
               longitude = -180 + (of_int i + 1 / 2) * theta,
               latitude = -90 + (of_int j + 1 / 2) * theta\<rparr>"
    by blast
  have c0: "(0::int) \<le> 0 \<and> 0 < np_round (360 / theta) \<and> (0::int) \<le> 0
              \<and> 0 < np_round (180 / theta)"
    using nf up rows by linarith
  have cn: "0 \<le> ?nf \<and> ?nf < np_round (360 / theta) \<and> (0::int) \<le> 0
              \<and> 0 < np_round (180 / theta)"
    using nf up rows by linarith
  have first: "ps ! 0 = \<lparr>point_id = compute_id 0 0 theta theta,
               longitude = -180 + (of_int 0 + 1 / 2) * theta,
               latitude = -90 + (of_int 0 + 1 / 2) * theta\<rparr>"
    using nth[OF c0] by simp
  have last: "ps ! nat ?nf = \<lparr>point_id = compute_id ?nf 0 theta theta,
               longitude = -180 + (of_int ?nf + 1 / 2) * theta,
               latitude = -90 + (of_int 0 + 1 / 2) * theta\<rparr>"
    using nth[OF cn] by simp
  have id0: "compute_id 0 0 theta theta = 0" and idn: "compute_id ?nf 0 theta theta = 0"
    using compute_id_formula[OF theta nf] by simp_all
  have "1 \<le> nat (np_round (180 / theta))" using rows by simp
  then have "nat (np_round (360 / theta)) \<le> length ps"
    unfolding len by (cases "nat (np_round (180 / theta))") simp_all
  moreover have "nat ?nf < nat (np_round (360 / theta))" using nf up by linarith
  ultimately have bound: "nat ?nf < length ps" by (rule less_le_trans[rotated])
  have "(0::real) < of_int ?nf" using nf by linarith
  then have gap: "0 < (of_int ?nf :: real) * theta" using theta by simp
  have l0: "longitude (ps ! 0) = -180 + theta / 2" unfolding first by simp
  have ln: "longitude (ps ! nat ?nf) = -180 + theta / 2 + of_int ?nf * theta"
    unfolding last by (simp add: algebra_simps)
  have differ: "longitude (ps ! 0) \<noteq> longitude (ps ! nat ?nf)"
    unfolding l0 ln using gap by linarith
  have i0: "point_id (ps ! 0) = 0" unfolding first using id0 by simp
  have i1: "point_id (ps ! nat ?nf) = 0" unfolding last using idn by simp
  from gen bound i0 i1 differ show ?thesis by blast
qed

text \<open>
  C7. The id is \<open>j * floor (360 / theta) + i mod floor (360 / theta)\<close> and the enumeration is
  row by row (\<open>compute_id_formula\<close>, \<open>grid_unmasked_core\<close>), but the ids of one call are not
  distinct: the number of columns is \<open>360 / theta\<close> rounded, the modulus is \<open>360 / theta\<close>
  truncated. At a step of 128 degrees there are three columns and the modulus is 2, so
  the points at longitudes -116 and 140 both get the id 0.
\<close>

theorem grid_ids_not_distinct:
  "generate_cubed_sphere_points reference_constants E
     (128 * pi * earth_mean_radius reference_constants / 180) None
   = Inr [\<lparr>point_id = 0, longitude = -116, latitude = -26\<rparr>,
          \<lparr>point_id = 1, longitude = 12, latitude = -26\<rparr>,
          \<lparr>point_id = 0, longitude = 140, latitude = -26\<rparr>]
   \<and> generate_cubed_sphere_points_steps E 128 128 None
   = Inr [\<lparr>point_id = 0, longitude = -116, latitude = -26\<rparr>,
          \<lparr>point_id = 1, longitude = 12, latitude = -26\<rparr>,
          \<lparr>point_id = 0, longitude = 140, latitude = -26\<rparr>]"
proof -
  have R: "earth_mean_radius reference_constants \<noteq> 0" by (simp add: reference_constants_def)
  have "generate_cubed_sphere_points reference_constants E
     (128 * pi * earth_mean_radius reference_constants / 180) None
     = generate_cubed_sphere_points_steps E 128 128 None"
    using R by (simp only: generate_cubed_sphere_points_def Let_def reference_step if_False)
  then show ?thesis by (simp only: grid_example_128 simp_thms)
qed

section \<open>Bounds of the sampled points\<close>








end
